theory Spec2Isabelle
  imports Main
begin

text \<open>
  The route recognizer: segments and their regular expressions, \<open>parse\<close>, the tree
  of states that \<open>add\<close> builds, \<open>recognize\<close> with \<open>findHandler\<close>, \<open>generate\<close>, and the
  query codec. A method takes the recognizer \<open>this\<close> and returns its result together
  with the recognizer after the call; a raised error is the left summand of the result,
  and no match is \<open>None\<close>. Handlers, parameter values and query values are strings
  (query values also booleans). The objects that the program uses as dictionaries are
  plain objects, read and written through \<open>Object.prototype\<close>.
\<close>

section \<open>JavaScript strings and objects\<close>

text \<open>
  Strings are character lists. \<open>charAt\<close> returns the empty string out of range,
  \<open>substr\<close> is \<open>take\<close>/\<open>drop\<close>, \<open>split\<close> on a one-character separator always
  returns at least one piece, and \<open>replace\<close> with a string pattern replaces the first
  occurrence only.
\<close>

definition charAt :: "string \<Rightarrow> nat \<Rightarrow> string" where
  "charAt s i = (if i < length s then [s ! i] else [])"

definition substr :: "string \<Rightarrow> nat \<Rightarrow> nat \<Rightarrow> string" where
  "substr s start len = take len (drop start s)"

fun split :: "char \<Rightarrow> string \<Rightarrow> string list" where
  "split sep [] = [[]]"
| "split sep (c # cs) =
     (if c = sep then [] # split sep cs
      else (case split sep cs of [] \<Rightarrow> [[c]] | w # ws \<Rightarrow> (c # w) # ws))"

fun join :: "string \<Rightarrow> string list \<Rightarrow> string" where
  "join sep [] = []"
| "join sep [x] = x"
| "join sep (x # y # ys) = x @ sep @ join sep (y # ys)"

fun replace_str :: "string \<Rightarrow> string \<Rightarrow> string \<Rightarrow> string" where
  "replace_str pat rep [] = (if pat = [] then rep else [])"
| "replace_str pat rep (c # cs) =
     (if take (length pat) (c # cs) = pat then rep @ drop (length pat) (c # cs)
      else c # replace_str pat rep cs)"

text \<open>
  An object used as a dictionary is an association list in insertion order;
  assigning to an existing key overwrites its value in place.
\<close>

fun obj_set :: "'k \<Rightarrow> 'v \<Rightarrow> ('k \<times> 'v) list \<Rightarrow> ('k \<times> 'v) list" where
  "obj_set k v [] = [(k, v)]"
| "obj_set k v ((k', v') # kvs) =
     (if k' = k then (k, v) # kvs else (k', v') # obj_set k v kvs)"

text \<open>
  The objects of the program are plain objects: a property that the object does not
  have itself is looked up in \<open>Object.prototype\<close>. \<open>object_prototype\<close> lists the
  properties found there (the standard ones and \<open>__proto__\<close> with the four legacy
  accessor helpers). All are functions, except \<open>__proto__\<close>, which reads as the
  prototype object itself; each of them is truthy.
\<close>

definition object_prototype :: "string list" where
  "object_prototype =
     [''constructor'', ''toString'', ''toLocaleString'', ''valueOf'', ''hasOwnProperty'',
      ''isPrototypeOf'', ''propertyIsEnumerable'', ''__proto__'', ''__defineGetter__'',
      ''__defineSetter__'', ''__lookupGetter__'', ''__lookupSetter__'']"

text \<open>
  Reading \<open>obj[k]\<close>, where \<open>obj\<close> is given by its own properties: the own value, or
  what \<open>Object.prototype\<close> has under that name, or \<open>undefined\<close>.
\<close>

datatype 'v read = Own 'v | Inherited string | Undefined

definition prop_get :: "(string \<rightharpoonup> 'v) \<Rightarrow> string \<Rightarrow> 'v read" where
  "prop_get obj k =
     (case obj k of
        Some v \<Rightarrow> Own v
      | None \<Rightarrow> if k \<in> set object_prototype then Inherited k else Undefined)"

text \<open>
  The text of an inherited value when it is appended to a string, as V8 prints it: the
  prototype object for \<open>__proto__\<close>, the constructor \<open>Object\<close> for \<open>constructor\<close>, and a
  native function of the same name for the others.
\<close>

definition inherited_text :: "string \<Rightarrow> string" where
  "inherited_text k =
     (if k = ''__proto__'' then ''[object Object]''
      else ''function '' @ (if k = ''constructor'' then ''Object'' else k) @
           ''() { [native code] }'')"

text \<open>
  The assignment \<open>obj[k] = v\<close> of a string, a boolean or \<open>undefined\<close> to an object that
  was created as \<open>{}\<close>: under the name \<open>__proto__\<close> it runs the inherited setter, which
  ignores a value that is not an object, and stores nothing.
\<close>

definition assign :: "string \<Rightarrow> 'v \<Rightarrow> (string \<times> 'v) list \<Rightarrow> (string \<times> 'v) list" where
  "assign k v obj = (if k = ''__proto__'' then obj else obj_set k v obj)"

text \<open>
  \<open>for (k in obj)\<close> visits the own properties: first the keys that are array indices
  (a decimal numeral without leading zero, below 4294967295) in ascending numeric
  order, then the other keys in insertion order. Nothing in \<open>Object.prototype\<close> is
  enumerable.
\<close>

definition digit_chars :: "char list" where
  "digit_chars = ''0123456789''"

text \<open>The value of a digit is its place among the digit characters.\<close>

definition digit_value :: "char \<Rightarrow> int" where
  "digit_value c = int (length (takeWhile (\<lambda>d. d \<noteq> c) digit_chars))"

definition numeral_value :: "string \<Rightarrow> int" where
  "numeral_value k = foldl (\<lambda>n c. 10 * n + digit_value c) 0 k"

definition array_index :: "string \<Rightarrow> int option" where
  "array_index k =
     (if k \<noteq> [] \<and> list_all (\<lambda>c. c \<in> set digit_chars) k \<and> (k = ''0'' \<or> hd k \<noteq> CHR ''0'') \<and>
         numeral_value k < 4294967295
      then Some (numeral_value k) else None)"

definition index_key :: "string \<times> 'v \<Rightarrow> int" where
  "index_key kv = (case array_index (fst kv) of None \<Rightarrow> 0 | Some n \<Rightarrow> n)"

definition for_in :: "(string \<times> 'v) list \<Rightarrow> (string \<times> 'v) list" where
  "for_in obj =
     sort_key index_key (filter (\<lambda>kv. array_index (fst kv) \<noteq> None) obj) @
     filter (\<lambda>kv. array_index (fst kv) = None) obj"

datatype jsval = JStr string | JBool bool

fun truthy :: "jsval \<Rightarrow> bool" where
  "truthy (JStr s) = (s \<noteq> [])"
| "truthy (JBool b) = b"

fun to_string :: "jsval \<Rightarrow> string" where
  "to_string (JStr s) = s"
| "to_string (JBool b) = (if b then ''true'' else ''false'')"

datatype error = RouteNotFound string | TypeError

section \<open>Regular expressions\<close>

text \<open>
  The regular expressions that the recognizer builds use literals, the anchors, negated
  character classes and the dot under \<open>+\<close> and \<open>*\<close>, capturing groups and an optional
  non-capturing group. They are kept in abstract syntax and run by a backtracking
  matcher with greedy quantifiers; \<open>src\<close> prints the source text of an expression.
\<close>

datatype cclass = AnyChar | NoneOf "char list"

datatype rx = Lit char | Bol | Eol | Plus cclass | Star cclass | Cap "rx list" | Opt "rx list"

fun accepts :: "cclass \<Rightarrow> char \<Rightarrow> bool" where
  "accepts AnyChar c = (c \<noteq> CHR 0x0A \<and> c \<noteq> CHR 0x0D)"
| "accepts (NoneOf cs) c = (c \<notin> set cs)"

fun ngroups :: "rx \<Rightarrow> nat" and ngroups_list :: "rx list \<Rightarrow> nat" where
  "ngroups (Cap rs) = Suc (ngroups_list rs)"
| "ngroups (Opt rs) = ngroups_list rs"
| "ngroups (Lit c) = 0"
| "ngroups Bol = 0"
| "ngroups Eol = 0"
| "ngroups (Plus c) = 0"
| "ngroups (Star c) = 0"
| "ngroups_list [] = 0"
| "ngroups_list (r # rs) = ngroups r + ngroups_list rs"

type_synonym captures = "string option list"

fun star :: "cclass \<Rightarrow> nat \<Rightarrow> string \<Rightarrow> (nat \<Rightarrow> string \<Rightarrow> 'a option) \<Rightarrow> 'a option" where
  "star c p [] k = k p []"
| "star c p (x # xs) k =
     (if accepts c x
      then (case star c (Suc p) xs k of Some r \<Rightarrow> Some r | None \<Rightarrow> k p (x # xs))
      else k p (x # xs))"

fun m :: "rx \<Rightarrow> nat \<Rightarrow> string \<Rightarrow> captures \<Rightarrow> (nat \<Rightarrow> string \<Rightarrow> captures \<Rightarrow> 'a option) \<Rightarrow> 'a option"
and ms :: "rx list \<Rightarrow> nat \<Rightarrow> string \<Rightarrow> captures \<Rightarrow> (nat \<Rightarrow> string \<Rightarrow> captures \<Rightarrow> 'a option) \<Rightarrow> 'a option"
where
  "m (Lit c) p s caps k =
     (case s of [] \<Rightarrow> None | x # xs \<Rightarrow> if x = c then k (Suc p) xs caps else None)"
| "m Bol p s caps k = (if p = 0 then k p s caps else None)"
| "m Eol p s caps k = (if s = [] then k p s caps else None)"
| "m (Plus c) p s caps k =
     (case s of [] \<Rightarrow> None
      | x # xs \<Rightarrow> if accepts c x then star c (Suc p) xs (\<lambda>p' s'. k p' s' caps) else None)"
| "m (Star c) p s caps k = star c p s (\<lambda>p' s'. k p' s' caps)"
| "m (Cap rs) p s caps k =
     ms rs p s (caps @ [None])
       (\<lambda>p' s' caps'. k p' s' (caps'[length caps := Some (take (p' - p) s)]))"
| "m (Opt rs) p s caps k =
     (case ms rs p s caps k of
        Some r \<Rightarrow> Some r
      | None \<Rightarrow> k p s (caps @ replicate (ngroups_list rs) None))"
| "ms [] p s caps k = k p s caps"
| "ms (r # rs) p s caps k = m r p s caps (\<lambda>p' s' caps'. ms rs p' s' caps' k)"

text \<open>
  \<open>String.prototype.match\<close> with a non-global expression: the first start index at
  which the expression matches; the result holds the whole match at index 0 and the
  capturing groups after it, \<open>None\<close> for a group that did not take part.
\<close>

fun exec_from :: "rx list \<Rightarrow> nat \<Rightarrow> string \<Rightarrow> captures option" where
  "exec_from rs p [] = m (Cap rs) p [] [] (\<lambda>_ _ caps. Some caps)"
| "exec_from rs p (x # xs) =
     (case m (Cap rs) p (x # xs) [] (\<lambda>_ _ caps. Some caps) of
        Some caps \<Rightarrow> Some caps
      | None \<Rightarrow> exec_from rs (Suc p) xs)"

definition js_match :: "string \<Rightarrow> rx list \<Rightarrow> captures option" where
  "js_match s rs = exec_from rs 0 s"

section \<open>Segments\<close>

text \<open>
  A segment of a route description. The \<open>query\<close> property is unset (\<open>None\<close>) until
  \<open>add\<close> assigns the route's handler to the last segment of the route. Handlers are
  strings; the empty string is the falsy one.
\<close>

datatype segment =
    StaticSegment string "string option"
  | EpsilonSegment "string option"
  | DynamicSegment string "string option"
  | StarSegment string "string option"

fun seg_query :: "segment \<Rightarrow> string option" where
  "seg_query (StaticSegment s q) = q"
| "seg_query (EpsilonSegment q) = q"
| "seg_query (DynamicSegment n q) = q"
| "seg_query (StarSegment n q) = q"

fun set_query :: "string \<Rightarrow> segment \<Rightarrow> segment" where
  "set_query h (StaticSegment s q) = StaticSegment s (Some h)"
| "set_query h (EpsilonSegment q) = EpsilonSegment (Some h)"
| "set_query h (DynamicSegment n q) = DynamicSegment n (Some h)"
| "set_query h (StarSegment n q) = StarSegment n (Some h)"

definition truthy_str :: "string option \<Rightarrow> bool" where
  "truthy_str v = (case v of None \<Rightarrow> False | Some s \<Rightarrow> s \<noteq> [])"

definition specials :: "char list" where
  "specials = ''/.*+?|()[]{}'' @ [CHR 0x5C]"

definition escapeRegex :: "string \<Rightarrow> string" where
  "escapeRegex s = concat (map (\<lambda>c. if c \<in> set specials then [CHR 0x5C, c] else [c]) s)"

definition queryRegex :: string where
  "queryRegex = ''(?:;([^/]*))?''"

fun regex :: "segment \<Rightarrow> string" where
  "regex (StaticSegment s q) =
     (let r = escapeRegex s in if truthy_str q then r @ queryRegex else r)"
| "regex (EpsilonSegment q) = queryRegex"
| "regex (DynamicSegment n q) =
     (if truthy_str q then ''([^/;]+)'' @ queryRegex else ''([^/]+)'')"
| "regex (StarSegment n q) =
     (if truthy_str q then ''([^;]+)'' @ queryRegex else ''(.+)'')"

text \<open>
  The compiled form of the same fragments. In the text of a static segment every special
  character is escaped and so a literal; \<open>^\<close> and \<open>$\<close> are not in \<open>specials\<close> and
  stay anchors.
\<close>

definition queryRx :: "rx list" where
  "queryRx = [Opt [Lit (CHR '';''), Cap [Star (NoneOf ''/'')]]]"

definition literal :: "char \<Rightarrow> rx" where
  "literal c = (if c = CHR ''^'' then Bol else if c = CHR ''$'' then Eol else Lit c)"

fun compile :: "segment \<Rightarrow> rx list" where
  "compile (StaticSegment s q) =
     (let r = map literal s in if truthy_str q then r @ queryRx else r)"
| "compile (EpsilonSegment q) = queryRx"
| "compile (DynamicSegment n q) =
     (if truthy_str q then Cap [Plus (NoneOf ''/;'')] # queryRx else [Cap [Plus (NoneOf ''/'')]])"
| "compile (StarSegment n q) =
     (if truthy_str q then Cap [Plus (NoneOf '';'')] # queryRx else [Cap [Plus AnyChar]])"

fun src_class :: "cclass \<Rightarrow> string" where
  "src_class AnyChar = ''.''"
| "src_class (NoneOf cs) = ''[^'' @ cs @ '']''"

fun src :: "rx \<Rightarrow> string" and srcs :: "rx list \<Rightarrow> string" where
  "src (Lit c) = escapeRegex [c]"
| "src Bol = ''^''"
| "src Eol = ''$''"
| "src (Plus c) = src_class c @ ''+''"
| "src (Star c) = src_class c @ ''*''"
| "src (Cap rs) = ''('' @ srcs rs @ '')''"
| "src (Opt rs) = ''(?:'' @ srcs rs @ '')?''"
| "srcs [] = []"
| "srcs (r # rs) = src r @ srcs rs"

text \<open>\<open>params\<close> is a plain object, given by its own properties; their values are strings.\<close>

fun generate_segment :: "segment \<Rightarrow> (string \<rightharpoonup> string) \<Rightarrow> string read" where
  "generate_segment (StaticSegment s q) params = Own s"
| "generate_segment (EpsilonSegment q) params = Own []"
| "generate_segment (DynamicSegment n q) params = prop_get params n"
| "generate_segment (StarSegment n q) params = prop_get params n"

text \<open>Appending a value to a string: \<open>undefined\<close> is appended as its name.\<close>

definition str_of :: "string option \<Rightarrow> string" where
  "str_of v = (case v of None \<Rightarrow> ''undefined'' | Some s \<Rightarrow> s)"

fun text_of :: "string read \<Rightarrow> string" where
  "text_of (Own s) = s"
| "text_of (Inherited k) = inherited_text k"
| "text_of Undefined = ''undefined''"

section \<open>Parsing a route description\<close>

record types =
  statics :: nat
  dynamics :: nat
  stars :: nat

definition dynamicRx :: "rx list" where
  "dynamicRx = [Bol, Lit (CHR '':''), Cap [Plus (NoneOf ''/'')], Eol]"

definition starRx :: "rx list" where
  "starRx = [Bol, Lit (CHR ''*''), Cap [Plus (NoneOf ''/'')], Eol]"

definition capture_at :: "captures \<Rightarrow> nat \<Rightarrow> string option" where
  "capture_at caps i = (if i < length caps then caps ! i else None)"

text \<open>
  The loop of \<open>parse\<close> over the pieces of the route; \<open>names\<close> and \<open>types\<close> are the
  caller's containers, returned updated.
\<close>

fun parse_loop ::
  "string list \<Rightarrow> segment list \<Rightarrow> string list \<Rightarrow> types \<Rightarrow> segment list \<times> string list \<times> types" where
  "parse_loop [] results names types = (results, names, types)"
| "parse_loop (segment # rest) results names types =
     (case js_match segment dynamicRx of
        Some match \<Rightarrow>
          parse_loop rest (results @ [DynamicSegment (str_of (capture_at match 1)) None])
            (names @ [str_of (capture_at match 1)]) (types\<lparr>dynamics := dynamics types + 1\<rparr>)
      | None \<Rightarrow>
          (case js_match segment starRx of
             Some match \<Rightarrow>
               parse_loop rest (results @ [StarSegment (str_of (capture_at match 1)) None])
                 (names @ [str_of (capture_at match 1)]) (types\<lparr>stars := stars types + 1\<rparr>)
           | None \<Rightarrow>
               if segment = [] then parse_loop rest results names types
               else parse_loop rest (results @ [StaticSegment segment None]) names
                      (types\<lparr>statics := statics types + 1\<rparr>)))"

definition parse :: "string \<Rightarrow> string list \<Rightarrow> types \<Rightarrow> segment list \<times> string list \<times> types" where
  "parse route names types =
     (let route' = (if charAt route 0 = ''/'' then drop 1 route else route)
      in parse_loop (split (CHR ''/'') route') [] names types)"

section \<open>The query codec\<close>

text \<open>
  A query object maps keys to strings or booleans; it is given by its own properties in
  insertion order.
\<close>

type_synonym query_obj = "(string \<times> jsval) list"

definition unescape :: "string \<Rightarrow> string" where
  "unescape str = replace_str ''%3B'' '';'' (replace_str ''%3D'' ''='' str)"

fun deserialize_loop :: "string list \<Rightarrow> query_obj \<Rightarrow> query_obj" where
  "deserialize_loop [] query = query"
| "deserialize_loop (p # ps) query =
     (let pair = split (CHR ''='') p
      in deserialize_loop ps
           (assign (unescape (pair ! 0))
              (if length pair > 1 then JStr (unescape (pair ! 1)) else JBool True) query))"

definition deserializeQueryString :: "string \<Rightarrow> query_obj" where
  "deserializeQueryString queryString = deserialize_loop (split (CHR '';'') queryString) []"

definition escape :: "string \<Rightarrow> string" where
  "escape str = replace_str ''='' ''%253D'' (replace_str '';'' ''%253B'' str)"

fun serialize_loop :: "query_obj \<Rightarrow> string list \<Rightarrow> string list" where
  "serialize_loop [] str = str"
| "serialize_loop ((k, v) # rest) str =
     (let pair = escape k;
          pair' = (if truthy v then pair @ ''='' @ escape (to_string v) else pair)
      in serialize_loop rest (str @ [pair']))"

definition serializeQuery :: "query_obj \<Rightarrow> string" where
  "serializeQuery query = join '';'' (serialize_loop (for_in query) [])"

section \<open>States\<close>

text \<open>
  A handler entry as \<open>add\<close> stores it has a handler and the names of its parameters.
  \<open>findHandler\<close> also reads a property \<open>hasQuery\<close> of the entry; \<open>hi_hasQuery\<close> is
  \<open>None\<close> where the property is absent.
\<close>

record handler_info =
  hi_handler :: string
  hi_names :: "string list"
  hi_hasQuery :: "bool option"

text \<open>
  An accepting state has \<open>handlers\<close>, \<open>regex\<close> (its source text and its compiled form)
  and \<open>types\<close>, all three assigned together by \<open>add\<close>.
\<close>

record accepting =
  handlers :: "handler_info list"
  regex_of :: "string \<times> rx list"
  types_of :: types

datatype state =
  State (segmentRegex: "string option") (segmentRx: "rx list")
        (nextStates: "state list") (accept: "accepting option")

fun set_accept :: "accepting \<Rightarrow> state \<Rightarrow> state" where
  "set_accept a (State key rx children old) = State key rx children (Some a)"

text \<open>\<open>State.get\<close>: the first child with the given key, here by its index.\<close>

fun get :: "state list \<Rightarrow> string \<Rightarrow> nat option" where
  "get [] key = None"
| "get (child # rest) key =
     (if segmentRegex child = Some key then Some 0
      else (case get rest key of None \<Rightarrow> None | Some i \<Rightarrow> Some (Suc i)))"

text \<open>
  \<open>add\<close> walks down from the root with \<open>currentState = currentState.put(segmentRegex)\<close>
  and then writes to the state it has reached. \<open>put_path\<close> is that walk on the tree:
  at each level the child with the anchored key is reused when \<open>get\<close> finds one and
  pushed behind the others when not; \<open>f\<close> is what is done to the state reached.
\<close>

definition anchored :: "string \<Rightarrow> string" where
  "anchored fragment = ''^'' @ fragment @ ''$''"

fun put_path :: "(string \<times> rx list) list \<Rightarrow> (state \<Rightarrow> state) \<Rightarrow> state \<Rightarrow> state" where
  "put_path [] f st = f st"
| "put_path ((fragment, rx) # rest) f st =
     (let key = anchored fragment in
      case get (nextStates st) key of
        Some i \<Rightarrow>
          State (segmentRegex st) (segmentRx st)
            ((nextStates st)[i := put_path rest f (nextStates st ! i)]) (accept st)
      | None \<Rightarrow>
          State (segmentRegex st) (segmentRx st)
            (nextStates st @ [put_path rest f (State (Some key) (Bol # rx @ [Eol]) [] None)])
            (accept st))"

definition match :: "state \<Rightarrow> string \<Rightarrow> state list" where
  "match st segment = filter (\<lambda>child. js_match segment (segmentRx child) \<noteq> None) (nextStates st)"

definition recognizeSegment :: "state list \<Rightarrow> string \<Rightarrow> state list" where
  "recognizeSegment states segment = concat (map (\<lambda>st. match st segment) states)"

text \<open>
  \<open>sortSolutions\<close> sorts the accepting states with this comparison. The sort is taken
  to be stable (an insertion sort).
\<close>

definition compare :: "accepting \<Rightarrow> accepting \<Rightarrow> int" where
  "compare a b =
     (if stars (types_of a) \<noteq> stars (types_of b)
      then int (stars (types_of a)) - int (stars (types_of b))
      else if dynamics (types_of a) \<noteq> dynamics (types_of b)
      then int (dynamics (types_of a)) - int (dynamics (types_of b))
      else if statics (types_of a) \<noteq> statics (types_of b)
      then int (statics (types_of a)) - int (statics (types_of b))
      else 0)"

fun insert_by :: "accepting \<Rightarrow> accepting list \<Rightarrow> accepting list" where
  "insert_by a [] = [a]"
| "insert_by a (b # bs) = (if compare a b \<le> 0 then a # b # bs else b # insert_by a bs)"

definition sortSolutions :: "accepting list \<Rightarrow> accepting list" where
  "sortSolutions states = foldr insert_by states []"

section \<open>Finding the handlers\<close>

record result =
  r_handler :: string
  r_params :: "(string \<times> string option) list"
  r_isDynamic :: bool
  r_query :: query_obj

text \<open>
  \<open>captures\<close> is \<open>None\<close> when the path does not match the expression; reading an index
  of it is then a TypeError. An index past the end reads \<open>undefined\<close>.
\<close>

fun read_names ::
  "string list \<Rightarrow> captures option \<Rightarrow> nat \<Rightarrow> (string \<times> string option) list
   \<Rightarrow> error + ((string \<times> string option) list \<times> nat)" where
  "read_names [] captures currentCapture params = Inr (params, currentCapture)"
| "read_names (n # ns) captures currentCapture params =
     (case captures of
        None \<Rightarrow> Inl TypeError
      | Some caps \<Rightarrow>
          read_names ns captures (Suc currentCapture)
            (assign n (capture_at caps currentCapture) params))"

definition read_query :: "handler_info \<Rightarrow> captures option \<Rightarrow> nat \<Rightarrow> error + (query_obj \<times> nat)" where
  "read_query handler captures currentCapture =
     (if hi_hasQuery handler = Some True then
        (case captures of
           None \<Rightarrow> Inl TypeError
         | Some caps \<Rightarrow>
             Inr (if truthy_str (capture_at caps currentCapture)
                  then deserializeQueryString (str_of (capture_at caps currentCapture))
                  else [], Suc currentCapture))
      else Inr ([], currentCapture))"

fun findHandler_loop ::
  "handler_info list \<Rightarrow> captures option \<Rightarrow> nat \<Rightarrow> result list \<Rightarrow> error + result list" where
  "findHandler_loop [] captures currentCapture result = Inr result"
| "findHandler_loop (handler # rest) captures currentCapture result =
     (case read_names (hi_names handler) captures currentCapture [] of
        Inl e \<Rightarrow> Inl e
      | Inr (params, c1) \<Rightarrow>
          (case read_query handler captures c1 of
             Inl e \<Rightarrow> Inl e
           | Inr (query, c2) \<Rightarrow>
               findHandler_loop rest captures c2
                 (result @ [\<lparr>r_handler = hi_handler handler, r_params = params,
                             r_isDynamic = (hi_names handler \<noteq> []), r_query = query\<rparr>])))"

definition findHandler :: "accepting \<Rightarrow> string \<Rightarrow> error + result list" where
  "findHandler state path =
     findHandler_loop (handlers state) (js_match path (snd (regex_of state))) 1 []"

section \<open>The recognizer\<close>

record route =
  route_path :: string
  route_handler :: string

record named_route =
  named_segments :: "segment list"
  named_handlers :: "handler_info list"

text \<open>
  The registry \<open>this.names\<close> is a plain object. \<open>own\<close> holds the routes stored under
  their names. Storing a route under the name \<open>__proto__\<close> runs the inherited setter and
  makes the route the prototype of the registry, \<open>proto\<close>; until then the prototype is
  \<open>Object.prototype\<close>.
\<close>

record registry =
  own :: "string \<rightharpoonup> named_route"
  proto :: "named_route option"

text \<open>
  What \<open>this.names[name]\<close> reads: a route, or a truthy value that is no route (a
  function or the prototype object from \<open>Object.prototype\<close>, or the \<open>segments\<close> or
  \<open>handlers\<close> array of a route that has become the prototype), or \<open>undefined\<close>.
\<close>

datatype names_value = Route named_route | NoRoute | NoValue

definition names_get :: "registry \<Rightarrow> string \<Rightarrow> names_value" where
  "names_get ns name =
     (case own ns name of
        Some route \<Rightarrow> Route route
      | None \<Rightarrow>
          (case proto ns of
             Some route \<Rightarrow>
               if name = ''__proto__'' then Route route
               else if name = ''segments'' \<or> name = ''handlers'' then NoRoute
               else if name \<in> set object_prototype then NoRoute else NoValue
           | None \<Rightarrow> if name \<in> set object_prototype then NoRoute else NoValue))"

definition names_set :: "string \<Rightarrow> named_route \<Rightarrow> registry \<Rightarrow> registry" where
  "names_set name route ns =
     (if name = ''__proto__'' then ns\<lparr>proto := Some route\<rparr>
      else ns\<lparr>own := (own ns)(name \<mapsto> route)\<rparr>)"

record recognizer =
  rootState :: state
  names :: registry

definition new_State :: state where
  "new_State = State None [] [] None"

definition RouteRecognizer :: recognizer where
  "RouteRecognizer = \<lparr>rootState = new_State, names = \<lparr>own = Map.empty, proto = None\<rparr>\<rparr>"

text \<open>
  The local variables of \<open>add\<close>. \<open>currentState\<close> is held as the fragments put since the
  root, and \<open>regex\<close> as its text and its compiled form.
\<close>

record locals =
  l_currentState :: "(string \<times> rx list) list"
  l_regex :: string
  l_rx :: "rx list"
  l_types :: types
  l_handlers :: "handler_info list"
  l_allSegments :: "segment list"
  l_isEmpty :: bool

fun add_segments :: "string \<Rightarrow> segment list \<Rightarrow> locals \<Rightarrow> locals" where
  "add_segments h [] l = l"
| "add_segments h (segment # rest) l =
     (let segment' = (if rest = [] then set_query h segment else segment);
          fragment = regex segment'
      in add_segments h rest
           (l\<lparr>l_isEmpty := False,
               l_regex := l_regex l @ ''/'' @ fragment,
               l_rx := l_rx l @ Lit (CHR ''/'') # compile segment',
               l_currentState := l_currentState l @ [(fragment, compile segment')],
               l_allSegments := l_allSegments l @ [segment']\<rparr>))"

fun add_routes :: "route list \<Rightarrow> locals \<Rightarrow> locals" where
  "add_routes [] l = l"
| "add_routes (r # rest) l =
     (case parse (route_path r) [] (l_types l) of
        (segs, nms, types') \<Rightarrow>
          let l' = add_segments (route_handler r) segs (l\<lparr>l_types := types'\<rparr>)
          in add_routes rest
               (l'\<lparr>l_handlers := l_handlers l' @
                     [\<lparr>hi_handler = route_handler r, hi_names = nms, hi_hasQuery = None\<rparr>]\<rparr>))"

definition add_locals :: locals where
  "add_locals =
     \<lparr>l_currentState = [], l_regex = ''^'', l_rx = [Bol],
      l_types = \<lparr>statics = 0, dynamics = 0, stars = 0\<rparr>,
      l_handlers = [], l_allSegments = [], l_isEmpty = True\<rparr>"

definition add_epsilon :: "locals \<Rightarrow> locals" where
  "add_epsilon l =
     (let e = EpsilonSegment (Some (hi_handler (last (l_handlers l))))
      in l\<lparr>l_currentState := l_currentState l @ [([], [])],
            l_regex := l_regex l @ ''/'' @ regex e,
            l_rx := l_rx l @ Lit (CHR ''/'') # compile e,
            l_allSegments := l_allSegments l @ [e]\<rparr>)"

text \<open>
  \<open>add\<close> with no route at all has put the empty fragment under the root when reading the
  last handler raises. \<open>as\<close> is the name in \<open>options\<close>, \<open>None\<close> without one.
\<close>

definition add :: "route list \<Rightarrow> string option \<Rightarrow> recognizer \<Rightarrow> (error + unit) \<times> recognizer" where
  "add routes as this =
     (let l = add_routes routes add_locals in
      if l_isEmpty l \<and> l_handlers l = [] then
        (Inl TypeError,
         this\<lparr>rootState := put_path (l_currentState l @ [([], [])]) id (rootState this)\<rparr>)
      else
        let l' = (if l_isEmpty l then add_epsilon l else l);
            a = \<lparr>handlers = l_handlers l', regex_of = (l_regex l' @ ''$'', l_rx l' @ [Eol]),
                 types_of = l_types l'\<rparr>;
            root = put_path (l_currentState l') (set_accept a) (rootState this)
        in (Inr (),
            \<lparr>rootState = root,
             names = (if truthy_str as
                      then names_set (str_of as)
                             \<lparr>named_segments = l_allSegments l', named_handlers = l_handlers l'\<rparr>
                             (names this)
                      else names this)\<rparr>))"

text \<open>
  A truthy value that is no route passes the test \<open>!route\<close>; it has no \<open>handlers\<close> and
  no \<open>segments\<close>, and reading the \<open>length\<close> of \<open>undefined\<close> is a TypeError.
\<close>

definition handlersFor :: "string \<Rightarrow> recognizer \<Rightarrow> (error + handler_info list) \<times> recognizer" where
  "handlersFor name this =
     (case names_get (names this) name of
        NoValue \<Rightarrow> (Inl (RouteNotFound (''There is no route named '' @ name)), this)
      | NoRoute \<Rightarrow> (Inl TypeError, this)
      | Route route \<Rightarrow> (Inr (named_handlers route), this))"

definition hasRoute :: "string \<Rightarrow> recognizer \<Rightarrow> bool \<times> recognizer" where
  "hasRoute name this = (names_get (names this) name \<noteq> NoValue, this)"

text \<open>
  \<open>queries\<close> is a plain object whose own properties are query objects. An inherited
  value under the name of the handler is truthy and has no enumerable property, so its
  query string is empty and nothing is appended.
\<close>

fun generate_loop ::
  "segment list \<Rightarrow> (string \<rightharpoonup> string) \<Rightarrow> (string \<rightharpoonup> query_obj) \<Rightarrow> string \<Rightarrow> string" where
  "generate_loop [] params queries output = output"
| "generate_loop (segment # rest) params queries output =
     (let output1 = output @ ''/'' @ text_of (generate_segment segment params);
          output2 =
            (if truthy_str (seg_query segment) then
               (case prop_get queries (str_of (seg_query segment)) of
                  Undefined \<Rightarrow> output1
                | Inherited k \<Rightarrow> output1
                | Own q \<Rightarrow>
                    (let queryString = serializeQuery q
                     in if queryString \<noteq> [] then output1 @ '';'' @ queryString else output1))
             else output1)
      in generate_loop rest params queries output2)"

definition generate ::
  "string \<Rightarrow> (string \<rightharpoonup> string) \<Rightarrow> (string \<rightharpoonup> query_obj) \<Rightarrow> recognizer
   \<Rightarrow> (error + string) \<times> recognizer" where
  "generate name params queries this =
     (case names_get (names this) name of
        NoValue \<Rightarrow> (Inl (RouteNotFound (''There is no route named '' @ name)), this)
      | NoRoute \<Rightarrow> (Inl TypeError, this)
      | Route route \<Rightarrow>
          (let output = generate_loop (named_segments route) params queries []
           in (Inr (if charAt output 0 \<noteq> ''/'' then ''/'' @ output else output), this)))"

fun recognize_loop :: "string list \<Rightarrow> state list \<Rightarrow> state list" where
  "recognize_loop [] states = states"
| "recognize_loop (segment # rest) states =
     (let states' = recognizeSegment states segment
      in if states' = [] then states' else recognize_loop rest states')"

definition normalize :: "string \<Rightarrow> string" where
  "normalize path =
     (let pathLen = length path;
          path' = (if charAt path 0 \<noteq> ''/'' then ''/'' @ path else path)
      in if pathLen > 1 \<and> charAt path' (pathLen - 1) = ''/''
         then substr path' 0 (pathLen - 1) else path')"

definition solutions :: "string \<Rightarrow> recognizer \<Rightarrow> accepting list" where
  "solutions path this =
     List.map_filter accept
       (recognize_loop (drop 1 (split (CHR ''/'') (normalize path))) [rootState this])"

definition recognize :: "string \<Rightarrow> recognizer \<Rightarrow> (error + result list option) \<times> recognizer" where
  "recognize path this =
     (case sortSolutions (solutions path this) of
        [] \<Rightarrow> (Inr None, this)
      | state # _ \<Rightarrow>
          (case findHandler state (normalize path) of
             Inl e \<Rightarrow> (Inl e, this)
           | Inr result \<Rightarrow> (Inr (Some result), this)))"

section \<open>Route tables used as examples\<close>

definition post_table :: recognizer where
  "post_table =
     snd (add [\<lparr>route_path = ''/posts/:id'', route_handler = ''post''\<rparr>] (Some ''post'')
            RouteRecognizer)"

definition post_named :: named_route where
  "post_named =
     \<lparr>named_segments = [StaticSegment ''posts'' None, DynamicSegment ''id'' (Some ''post'')],
      named_handlers = [\<lparr>hi_handler = ''post'', hi_names = [''id''], hi_hasQuery = None\<rparr>]\<rparr>"

definition toString_table :: recognizer where
  "toString_table =
     snd (add [\<lparr>route_path = ''/:toString'', route_handler = ''show''\<rparr>] (Some ''show'')
            RouteRecognizer)"

definition proto_table :: recognizer where
  "proto_table =
     snd (add [\<lparr>route_path = ''/:__proto__'', route_handler = ''h''\<rparr>] (Some ''p'')
            RouteRecognizer)"

definition nested_table :: recognizer where
  "nested_table =
     snd (add [\<lparr>route_path = ''/posts'', route_handler = ''posts''\<rparr>,
               \<lparr>route_path = ''/:id'', route_handler = ''post''\<rparr>] None RouteRecognizer)"

definition list_table :: recognizer where
  "list_table =
     snd (add [\<lparr>route_path = ''/posts'', route_handler = ''list''\<rparr>] None RouteRecognizer)"

definition ambiguous_table :: recognizer where
  "ambiguous_table =
     snd (add [\<lparr>route_path = ''/posts/:id'', route_handler = ''post''\<rparr>] None
       (snd (add [\<lparr>route_path = ''/posts/new'', route_handler = ''new''\<rparr>] None
          RouteRecognizer)))"

text \<open>A sequence of \<open>add\<close> calls, the later ones on what the earlier ones have left.\<close>

definition add_all :: "(route list \<times> string option) list \<Rightarrow> recognizer \<Rightarrow> recognizer" where
  "add_all calls this = foldl (\<lambda>rr (routes, as). snd (add routes as rr)) this calls"

definition flat_table :: recognizer where
  "flat_table =
     add_all [([\<lparr>route_path = ''/posts'', route_handler = ''posts''\<rparr>], None),
              ([\<lparr>route_path = ''/posts/new'', route_handler = ''new''\<rparr>], None)]
       RouteRecognizer"

definition levels_table :: recognizer where
  "levels_table =
     add_all [([\<lparr>route_path = ''/posts'', route_handler = ''posts''\<rparr>], None),
              ([\<lparr>route_path = ''/posts'', route_handler = ''posts''\<rparr>,
                \<lparr>route_path = ''/new'', route_handler = ''new''\<rparr>], None)]
       RouteRecognizer"

section \<open>Predicates of the properties\<close>

text \<open>The parameter that a dynamic or star segment reads when a path is generated.\<close>

fun param_name :: "segment \<Rightarrow> string option" where
  "param_name (DynamicSegment n q) = Some n"
| "param_name (StarSegment n q) = Some n"
| "param_name (StaticSegment s q) = None"
| "param_name (EpsilonSegment q) = None"

text \<open>The counts that \<open>sortSolutions\<close> compares, and their lexicographic order.\<close>

definition specificity :: "accepting \<Rightarrow> nat \<times> nat \<times> nat" where
  "specificity a = (stars (types_of a), dynamics (types_of a), statics (types_of a))"

fun lex_le :: "nat \<times> nat \<times> nat \<Rightarrow> nat \<times> nat \<times> nat \<Rightarrow> bool" where
  "lex_le (a1, a2, a3) (b1, b2, b3) =
     (a1 < b1 \<or> (a1 = b1 \<and> (a2 < b2 \<or> (a2 = b2 \<and> a3 \<le> b3))))"

text \<open>No state of the tree has two children with the same key.\<close>

fun distinct_keys :: "state \<Rightarrow> bool" where
  "distinct_keys (State key rx children a) =
     (distinct (map segmentRegex children) \<and> list_all distinct_keys children)"


























section \<open>Properties of the generator\<close>

lemma generate_loop_append:
  "generate_loop (xs @ ys) params queries out =
   generate_loop ys params queries (generate_loop xs params queries out)"
  by (induction xs arbitrary: out) (simp_all add: Let_def)

lemma generate_loop_output:
  "generate_loop xs params queries out = out @ generate_loop xs params queries []"
proof (induction xs arbitrary: out)
  case Nil
  show ?case by simp
next
  case (Cons x xs)
  show ?case
    apply (simp add: Let_def split: read.split)
    apply (intro conjI impI allI)
    apply (subst Cons.IH, (subst (2) Cons.IH)?, simp)+
    done
qed

lemma generate_loop_step:
  "\<exists>q. generate_loop (seg # post) params queries [] =
     ''/'' @ text_of (generate_segment seg params) @ q"
proof -
  have "\<exists>out. generate_loop [seg] params queries [] =
          ''/'' @ text_of (generate_segment seg params) @ out"
    by (auto simp: Let_def split: read.split)
  then obtain out where out:
    "generate_loop [seg] params queries [] = ''/'' @ text_of (generate_segment seg params) @ out"
    by blast
  have "generate_loop (seg # post) params queries [] =
        generate_loop ([seg] @ post) params queries []"
    by simp
  also have "\<dots> = generate_loop [seg] params queries [] @ generate_loop post params queries []"
    by (subst generate_loop_append, subst generate_loop_output) simp
  finally show ?thesis using out by simp
qed

lemma post_table_names: "names_get (names post_table) ''post'' = Route post_named"
  by code_simp

text \<open>
  A name under which the registry reads \<open>undefined\<close> is reported as unknown by all three
  methods, and a name under which it reads a route is served by all three.
\<close>

lemma unknown_name:
  "names_get (names this) name = NoValue \<Longrightarrow>
     \<not> fst (hasRoute name this) \<and>
     fst (generate name params queries this) =
       Inl (RouteNotFound (''There is no route named '' @ name)) \<and>
     fst (handlersFor name this) = Inl (RouteNotFound (''There is no route named '' @ name))"
  by (simp add: hasRoute_def generate_def handlersFor_def)

lemma known_name:
  "names_get (names this) name = Route route \<Longrightarrow>
     fst (hasRoute name this) \<and>
     (\<exists>out. fst (generate name params queries this) = Inr out) \<and>
     fst (handlersFor name this) = Inr (named_handlers route)"
  by (simp add: hasRoute_def generate_def handlersFor_def Let_def)

text \<open>
  C7. On a new recognizer, where no name is registered, \<open>hasRoute\<close> of \<open>constructor\<close> is
  true, and \<open>generate\<close> and \<open>handlersFor\<close> of \<open>constructor\<close> raise a TypeError and not the
  error that there is no route of that name: \<open>this.names[name]\<close> finds the constructor
  that the registry inherits from \<open>Object.prototype\<close>.
\<close>

theorem C7_inherited_name:
  "fst (hasRoute ''constructor'' RouteRecognizer) \<and>
   fst (generate ''constructor'' Map.empty Map.empty RouteRecognizer) = Inl TypeError \<and>
   fst (handlersFor ''constructor'' RouteRecognizer) = Inl TypeError \<and>
   own (names RouteRecognizer) = Map.empty"
proof -
  have "fst (hasRoute ''constructor'' RouteRecognizer)"
    by code_simp
  moreover have "fst (generate ''constructor'' Map.empty Map.empty RouteRecognizer) =
      Inl TypeError"
    by code_simp
  moreover have "fst (handlersFor ''constructor'' RouteRecognizer) = Inl TypeError"
    by code_simp
  moreover have "own (names RouteRecognizer) = Map.empty"
    by (simp add: RouteRecognizer_def)
  ultimately show ?thesis by blast
qed

text \<open>
  C10, as the code has it. \<open>generate\<close> with a registered name returns a path whatever
  \<open>params\<close> holds; where the parameter of a dynamic or star segment is missing from
  \<open>params\<close> and is not the name of a property of \<open>Object.prototype\<close>, the path has
  \<open>undefined\<close> in the place of that segment.
\<close>

theorem C10_generate_no_validation:
  assumes "names_get (names this) name = Route route"
  shows "(\<exists>out. fst (generate name params queries this) = Inr out) \<and>
         (\<forall>pre seg post n.
            named_segments route = pre @ seg # post \<and> param_name seg = Some n \<and>
            params n = None \<and> n \<notin> set object_prototype \<longrightarrow>
            (\<exists>rest. fst (generate name params queries this) =
                Inr (generate_loop pre params queries [] @ ''/undefined'' @ rest)))"
proof (intro conjI allI impI)
  show "\<exists>out. fst (generate name params queries this) = Inr out"
    using assms by (simp add: generate_def Let_def)
next
  fix pre seg post n
  assume a: "named_segments route = pre @ seg # post \<and> param_name seg = Some n \<and>
             params n = None \<and> n \<notin> set object_prototype"
  then have u: "text_of (generate_segment seg params) = ''undefined''"
    by (cases seg) (auto simp: prop_get_def)
  obtain q where q: "generate_loop (seg # post) params queries [] = ''/undefined'' @ q"
    using generate_loop_step[of seg post params queries] u by auto
  have whole: "generate_loop (named_segments route) params queries [] =
        generate_loop pre params queries [] @ ''/undefined'' @ q"
    using a q by (simp only: generate_loop_append) (subst generate_loop_output, simp)
  have "charAt (generate_loop (named_segments route) params queries []) 0 = ''/''"
  proof (cases pre)
    case Nil
    then show ?thesis using whole by (simp add: charAt_def)
  next
    case (Cons p ps)
    obtain r where "generate_loop (p # ps) params queries [] = ''/'' @ r"
      using generate_loop_step[of p ps params queries] by auto
    then show ?thesis using whole Cons by (simp add: charAt_def)
  qed
  then show "\<exists>rest. fst (generate name params queries this) =
                Inr (generate_loop pre params queries [] @ ''/undefined'' @ rest)"
    using assms whole by (simp add: generate_def Let_def)
qed

theorem C10_generate_no_validation_witness:
  "names_get (names post_table) ''post'' = Route post_named \<and>
   ''id'' \<notin> set object_prototype \<and>
   (\<exists>rest. fst (generate ''post'' Map.empty Map.empty post_table) =
      Inr (''/posts/undefined'' @ rest))"
proof -
  have segs: "named_segments post_named =
      [StaticSegment ''posts'' None] @ DynamicSegment ''id'' (Some ''post'') # []"
    by (simp add: post_named_def)
  have pre: "generate_loop [StaticSegment ''posts'' None] Map.empty Map.empty [] = ''/posts''"
    by (simp add: truthy_str_def)
  have own: "''id'' \<notin> set object_prototype"
    by (simp add: object_prototype_def)
  from C10_generate_no_validation [OF post_table_names, of Map.empty Map.empty]
  have "\<exists>rest. fst (generate ''post'' Map.empty Map.empty post_table) =
      Inr (generate_loop [StaticSegment ''posts'' None] Map.empty Map.empty [] @
           ''/undefined'' @ rest)"
    using segs own by (metis param_name.simps(1))
  then show ?thesis
    using post_table_names pre own by simp
qed

text \<open>
  A parameter named \<open>toString\<close> that is missing from \<open>params\<close>: the path has the text of
  the inherited function in the place of the segment.
\<close>

theorem C10_generate_no_validation_counterexample:
  "fst (generate ''show'' Map.empty Map.empty toString_table) =
     Inr ''/function toString() { [native code] }''"
  by code_simp

section \<open>Reads leave the recognizer as it is\<close>

text \<open>
  C9. \<open>recognize\<close>, \<open>generate\<close>, \<open>handlersFor\<close> and \<open>hasRoute\<close> return the recognizer
  they were given: the root state with all its children and accepting data, and the
  registry of names, are the same after the call as before, whatever the arguments
  and also when the call raises.
\<close>

theorem C9_pure_reads:
  "snd (recognize path this) = this \<and>
   snd (generate name params queries this) = this \<and>
   snd (handlersFor name this) = this \<and>
   snd (hasRoute name this) = this"
  by (simp add: recognize_def generate_def handlersFor_def hasRoute_def Let_def
        split: list.split sum.split names_value.split)

section \<open>Recognition of nested levels, queries and unnormalized paths\<close>

text \<open>
  No handler entry that \<open>add\<close> builds has \<open>hasQuery\<close>, and \<open>findHandler\<close> reads no
  capture as the query of an entry without it.
\<close>

lemma add_segments_keeps_handlers: "l_handlers (add_segments h segs l) = l_handlers l"
  by (induction segs arbitrary: l) (simp_all add: Let_def)

lemma add_routes_hasQuery:
  "\<forall>e \<in> set (l_handlers l). hi_hasQuery e = None \<Longrightarrow>
   \<forall>e \<in> set (l_handlers (add_routes routes l)). hi_hasQuery e = None"
proof (induction routes arbitrary: l)
  case Nil
  then show ?case by simp
next
  case (Cons r routes)
  obtain segs nms ty where p: "parse (route_path r) [] (l_types l) = (segs, nms, ty)"
    by (cases "parse (route_path r) [] (l_types l)")
  let ?l = "add_segments (route_handler r) segs (l\<lparr>l_types := ty\<rparr>)"
  have "\<forall>e \<in> set (l_handlers (?l\<lparr>l_handlers := l_handlers ?l @
           [\<lparr>hi_handler = route_handler r, hi_names = nms, hi_hasQuery = None\<rparr>]\<rparr>)).
          hi_hasQuery e = None"
    using Cons.prems by (simp add: add_segments_keeps_handlers)
  from Cons.IH[OF this] show ?case
    by (simp add: p Let_def)
qed

lemma read_query_absent: "hi_hasQuery e = None \<Longrightarrow> read_query e captures c = Inr ([], c)"
  by (simp add: read_query_def)

text \<open>
  C2. With \<open>/posts\<close> and its child \<open>/:id\<close> under the handlers \<open>posts\<close> and \<open>post\<close>,
  \<open>recognize\<close> of \<open>/posts/5\<close> returns two entries, and the parameter \<open>id\<close> of the second
  is \<open>undefined\<close>: the expression of the accepting state has a query group behind
  \<open>posts\<close>, its capture is at index 1, and \<open>findHandler\<close> reads index 1 for \<open>id\<close>
  because no handler entry has \<open>hasQuery\<close>.
\<close>

theorem C2_nested_params:
  "fst (recognize ''/posts/5'' nested_table) =
     Inr (Some [\<lparr>r_handler = ''posts'', r_params = [], r_isDynamic = False, r_query = []\<rparr>,
                \<lparr>r_handler = ''post'', r_params = [(''id'', None)], r_isDynamic = True,
                 r_query = []\<rparr>]) \<and>
   map (\<lambda>a. (fst (regex_of a), js_match ''/posts/5'' (snd (regex_of a))))
     (solutions ''/posts/5'' nested_table) =
     [(''^/posts(?:;([^/]*))?/([^/;]+)(?:;([^/]*))?$'',
       Some [Some ''/posts/5'', None, Some ''5'', None])]"
  by code_simp

text \<open>
  C3. With the handler \<open>list\<close> on \<open>/posts\<close>, \<open>recognize\<close> of
  \<open>/posts;sort=asc;archived\<close> returns the entry of \<open>list\<close> with an empty query: the
  expression captures the query string, and the codec would decode it, but
  \<open>findHandler\<close> decodes a capture only for an entry that has \<open>hasQuery\<close>, which \<open>add\<close>
  never stores.
\<close>

theorem C3_query_ignored:
  "fst (recognize ''/posts;sort=asc;archived'' list_table) =
     Inr (Some [\<lparr>r_handler = ''list'', r_params = [], r_isDynamic = False, r_query = []\<rparr>]) \<and>
   map (\<lambda>a. js_match ''/posts;sort=asc;archived'' (snd (regex_of a)))
     (solutions ''/posts;sort=asc;archived'' list_table) =
     [Some [Some ''/posts;sort=asc;archived'', Some ''sort=asc;archived'']] \<and>
   deserializeQueryString ''sort=asc;archived'' =
     [(''sort'', JStr ''asc''), (''archived'', JBool True)]"
  by code_simp

text \<open>
  C4. \<open>recognize\<close> takes the length of the path before it puts the separator in front,
  and tests the character at that length minus one afterwards. \<open>posts/\<close> keeps its
  trailing separator and is not recognized where \<open>/posts\<close> is; \<open>posts/b\<close> loses its last
  segment and is recognized as \<open>/posts\<close>.
\<close>

theorem C4_normalize_stale_length:
  "normalize ''posts/'' = ''/posts/'' \<and>
   fst (recognize ''posts/'' list_table) = Inr None \<and>
   fst (recognize ''/posts'' list_table) =
     Inr (Some [\<lparr>r_handler = ''list'', r_params = [], r_isDynamic = False, r_query = []\<rparr>]) \<and>
   normalize ''posts/b'' = ''/posts'' \<and>
   fst (recognize ''posts/b'' list_table) =
     Inr (Some [\<lparr>r_handler = ''list'', r_params = [], r_isDynamic = False, r_query = []\<rparr>])"
  by code_simp

section \<open>Choice among several accepting states\<close>

lemma compare_le: "compare a b \<le> 0 \<longleftrightarrow> lex_le (specificity a) (specificity b)"
  by (auto simp: compare_def specificity_def)

lemma lex_le_trans: "lex_le x y \<Longrightarrow> lex_le y z \<Longrightarrow> lex_le x z"
  by (cases x; cases y; cases z) auto

lemma lex_le_total: "lex_le x y \<or> lex_le y x"
  by (cases x; cases y) auto

lemma lex_le_refl: "lex_le x x"
  by (cases x) auto

lemma sortSolutions_head:
  "xs \<noteq> [] \<Longrightarrow> \<exists>s rest. sortSolutions xs = s # rest \<and> s \<in> set xs \<and>
      (\<forall>t \<in> set xs. lex_le (specificity s) (specificity t))"
proof (induction xs)
  case Nil
  then show ?case by simp
next
  case (Cons a xs)
  show ?case
  proof (cases "xs = []")
    case True
    then show ?thesis by (simp add: sortSolutions_def lex_le_refl)
  next
    case False
    with Cons.IH obtain s rest where s: "sortSolutions xs = s # rest" "s \<in> set xs"
      "\<forall>t \<in> set xs. lex_le (specificity s) (specificity t)" by blast
    have step: "sortSolutions (a # xs) = insert_by a (s # rest)"
      using s(1) by (simp add: sortSolutions_def)
    show ?thesis
    proof (cases "compare a s \<le> 0")
      case True
      then have "lex_le (specificity a) (specificity s)" by (simp add: compare_le)
      then have "\<forall>t \<in> set (a # xs). lex_le (specificity a) (specificity t)"
        using s(3) lex_le_trans lex_le_refl by auto
      then show ?thesis using step True by simp
    next
      case False
      then have "lex_le (specificity s) (specificity a)"
        using lex_le_total[of "specificity a" "specificity s"] by (simp add: compare_le)
      then have "\<forall>t \<in> set (a # xs). lex_le (specificity s) (specificity t)"
        using s(3) by auto
      then show ?thesis using step False s(2) by simp
    qed
  qed
qed

lemma ambiguous_solutions:
  "map specificity (solutions ''/posts/new'' ambiguous_table) = [(0, 0, 2), (0, 1, 1)]"
  by code_simp

lemma ambiguous_recognize:
  "fst (recognize ''/posts/new'' ambiguous_table) =
     Inr (Some [\<lparr>r_handler = ''new'', r_params = [], r_isDynamic = False, r_query = []\<rparr>])"
  by code_simp

text \<open>
  C5. When the walk over the path ends on one or more accepting states, \<open>recognize\<close>
  returns the handlers of one of them whose counts \<open>(stars, dynamics, statics)\<close> are
  least in the lexicographic order: fewer stars first, then fewer dynamics, then fewer
  statics.
\<close>

theorem C5_least_specificity:
  assumes "solutions path this \<noteq> []"
  shows "\<exists>state. state \<in> set (solutions path this) \<and>
           (\<forall>t \<in> set (solutions path this). lex_le (specificity state) (specificity t)) \<and>
           fst (recognize path this) =
             (case findHandler state (normalize path) of
                Inl e \<Rightarrow> Inl e | Inr result \<Rightarrow> Inr (Some result))"
proof -
  from sortSolutions_head[OF assms] obtain s rest where
    s: "sortSolutions (solutions path this) = s # rest" "s \<in> set (solutions path this)"
      "\<forall>t \<in> set (solutions path this). lex_le (specificity s) (specificity t)" by blast
  have "fst (recognize path this) =
             (case findHandler s (normalize path) of
                Inl e \<Rightarrow> Inl e | Inr result \<Rightarrow> Inr (Some result))"
    using s(1) by (simp add: recognize_def split: sum.split)
  with s(2,3) show ?thesis by blast
qed

theorem C5_least_specificity_witness:
  "length (solutions ''/posts/new'' ambiguous_table) = 2 \<and>
   (\<exists>state. state \<in> set (solutions ''/posts/new'' ambiguous_table) \<and>
      (\<forall>t \<in> set (solutions ''/posts/new'' ambiguous_table).
         lex_le (specificity state) (specificity t)) \<and>
      (case findHandler state (normalize ''/posts/new'') of
         Inl e \<Rightarrow> Inl e | Inr result \<Rightarrow> Inr (Some result)) =
      Inr (Some [\<lparr>r_handler = ''new'', r_params = [], r_isDynamic = False, r_query = []\<rparr>]))"
proof -
  have two: "length (solutions ''/posts/new'' ambiguous_table) = 2"
    using ambiguous_solutions by (metis length_map length_Cons list.size(3) numeral_2_eq_2)
  then have some: "solutions ''/posts/new'' ambiguous_table \<noteq> []"
    by auto
  show ?thesis
    using C5_least_specificity [OF some] two ambiguous_recognize by auto
qed

section \<open>The keys of the children of a state\<close>

lemma get_None: "get cs key = None \<longleftrightarrow> Some key \<notin> set (map segmentRegex cs)"
  by (induction cs) (auto split: option.splits)

lemma get_Some: "get cs key = Some i \<Longrightarrow> i < length cs \<and> segmentRegex (cs ! i) = Some key"
  by (induction cs arbitrary: i) (auto split: option.splits if_splits)

lemma put_path_key:
  "(\<And>s. segmentRegex (f s) = segmentRegex s) \<Longrightarrow>
   segmentRegex (put_path ks f st) = segmentRegex st"
  by (cases ks) (auto simp: Let_def split: option.split)

lemma map_key_update:
  "i < length cs \<Longrightarrow> segmentRegex c = segmentRegex (cs ! i) \<Longrightarrow>
   map segmentRegex (cs[i := c]) = map segmentRegex cs"
  by (simp add: map_update list_update_same_conv)

lemma put_path_distinct:
  assumes f: "\<And>s. segmentRegex (f s) = segmentRegex s"
    "\<And>s. distinct_keys s \<Longrightarrow> distinct_keys (f s)"
  shows "distinct_keys st \<Longrightarrow> distinct_keys (put_path ks f st)"
proof (induction ks arbitrary: st)
  case Nil
  then show ?case by (simp add: f)
next
  case (Cons k ks)
  obtain fragment rx where k: "k = (fragment, rx)" by (cases k)
  obtain key r cs a where st: "st = State key r cs a" by (cases st)
  let ?key = "anchored fragment"
  from Cons.prems st have d: "distinct (map segmentRegex cs)"
    and all: "list_all distinct_keys cs"
    by simp_all
  show ?case
  proof (cases "get cs ?key")
    case None
    have new: "distinct_keys (put_path ks f (State (Some ?key) (Bol # rx @ [Eol]) [] None))"
      by (rule Cons.IH) simp
    have "segmentRegex (put_path ks f (State (Some ?key) (Bol # rx @ [Eol]) [] None)) =
          Some ?key"
      by (simp add: put_path_key f)
    moreover have "Some ?key \<notin> set (map segmentRegex cs)"
      using None by (simp add: get_None)
    ultimately show ?thesis
      using d all new by (simp add: k st Let_def None)
  next
    case (Some i)
    then have i: "i < length cs" "segmentRegex (cs ! i) = Some ?key"
      using get_Some by blast+
    have child: "distinct_keys (put_path ks f (cs ! i))"
      using all i(1) by (intro Cons.IH) (simp add: list_all_length)
    have keys: "map segmentRegex (cs[i := put_path ks f (cs ! i)]) = map segmentRegex cs"
      using i(1) by (intro map_key_update) (simp_all add: put_path_key f)
    have "list_all distinct_keys (cs[i := put_path ks f (cs ! i)])"
      using all child i(1) by (auto simp: list_all_length nth_list_update)
    then show ?thesis
      using Some d keys by (simp add: k st Let_def)
  qed
qed

lemma set_accept_key: "segmentRegex (set_accept a s) = segmentRegex s"
  by (cases s) simp

lemma set_accept_distinct: "distinct_keys s \<Longrightarrow> distinct_keys (set_accept a s)"
  by (cases s) simp

lemma add_distinct:
  "distinct_keys (rootState this) \<Longrightarrow> distinct_keys (rootState (snd (add routes as this)))"
  by (simp add: add_def Let_def put_path_distinct set_accept_key set_accept_distinct)

lemma add_all_distinct:
  "distinct_keys (rootState this) \<Longrightarrow> distinct_keys (rootState (add_all calls this))"
  unfolding add_all_def
  by (induction calls arbitrary: this) (auto simp: add_distinct)

text \<open>
  C8, as the code has it. After any sequence of \<open>add\<close> calls on a new recognizer no state
  has two children with the same key. \<open>/posts\<close> and then \<open>/posts/new\<close>, each registered
  with its handler, are both recognized. The edge of \<open>posts\<close> is one and the same when
  \<open>posts\<close> is the last segment of a handler in both registrations, as with the levels
  \<open>/posts\<close> and \<open>/new\<close>, where its key has the query group both times.
\<close>

theorem C8_distinct_keys:
  "distinct_keys (rootState (add_all calls RouteRecognizer)) \<and>
   fst (recognize ''/posts'' flat_table) =
     Inr (Some [\<lparr>r_handler = ''posts'', r_params = [], r_isDynamic = False, r_query = []\<rparr>]) \<and>
   fst (recognize ''/posts/new'' flat_table) =
     Inr (Some [\<lparr>r_handler = ''new'', r_params = [], r_isDynamic = False, r_query = []\<rparr>]) \<and>
   map segmentRegex (nextStates (rootState levels_table)) = [Some ''^posts(?:;([^/]*))?$'']"
proof -
  have "distinct_keys (rootState (add_all calls RouteRecognizer))"
    by (rule add_all_distinct) (simp add: RouteRecognizer_def new_State_def)
  moreover have "fst (recognize ''/posts'' flat_table) =
     Inr (Some [\<lparr>r_handler = ''posts'', r_params = [], r_isDynamic = False, r_query = []\<rparr>])"
    by code_simp
  moreover have "fst (recognize ''/posts/new'' flat_table) =
     Inr (Some [\<lparr>r_handler = ''new'', r_params = [], r_isDynamic = False, r_query = []\<rparr>])"
    by code_simp
  moreover have "map segmentRegex (nextStates (rootState levels_table)) =
     [Some ''^posts(?:;([^/]*))?$'']"
    by code_simp
  ultimately show ?thesis by blast
qed

theorem C8_distinct_keys_witness: "distinct_keys (rootState flat_table)"
  using C8_distinct_keys
    [of "[([\<lparr>route_path = ''/posts'', route_handler = ''posts''\<rparr>], None),
          ([\<lparr>route_path = ''/posts/new'', route_handler = ''new''\<rparr>], None)]"]
  by (simp add: flat_table_def)

text \<open>
  \<open>/posts\<close> and then \<open>/posts/new\<close>, each registered with its handler: the root has two
  children for \<open>posts\<close>, the one of the first registration with the query group of the
  last segment and the one of the second without.
\<close>

theorem C8_posts_edge_counterexample:
  "map segmentRegex (nextStates (rootState flat_table)) =
     [Some ''^posts(?:;([^/]*))?$'', Some ''^posts$'']"
  by code_simp

section \<open>The query codec, there and back\<close>
























section \<open>The compiled fragments and their text\<close>

text \<open>The compiled form of a segment prints as the text that \<open>regex\<close> returns.\<close>

lemma srcs_append: "srcs (xs @ ys) = srcs xs @ srcs ys"
  by (induction xs) simp_all

lemma srcs_literal: "srcs (map literal s) = escapeRegex s"
  by (induction s) (simp_all add: literal_def escapeRegex_def specials_def)

lemma srcs_queryRx: "srcs queryRx = queryRegex"
  by (simp add: queryRx_def queryRegex_def escapeRegex_def specials_def)

lemma compile_source: "srcs (compile seg) = regex seg"
  by (cases seg) (simp_all add: Let_def srcs_append srcs_literal srcs_queryRx)






lemma queryRegex_hd: "queryRegex = [] \<or> hd queryRegex = CHR ''(''"
  by (simp add: queryRegex_def)





section \<open>Matching a generated path\<close>

lemma ms_append:
  "ms (xs @ ys) p s caps k = ms xs p s caps (\<lambda>p' s' caps'. ms ys p' s' caps' k)"
  by (induction xs arbitrary: p s caps k) simp_all
















section \<open>Walking the tree along a registered route\<close>












section \<open>What \<open>parse\<close> and \<open>add\<close> build\<close>














section \<open>The generated path and its captures\<close>


















section \<open>From a generated path back to the parameters\<close>















text \<open>
  A parameter named \<open>__proto__\<close> does not come back: \<open>findHandler\<close> assigns the capture
  to \<open>params[''__proto__'']\<close>, which stores nothing.
\<close>

lemma proto_parameter:
  "fst (generate ''p'' [''__proto__'' \<mapsto> ''5''] Map.empty proto_table) = Inr ''/5'' \<and>
   fst (recognize ''/5'' proto_table) =
     Inr (Some [\<lparr>r_handler = ''h'', r_params = [], r_isDynamic = True, r_query = []\<rparr>])"
  by code_simp




end
